theory Spec2Isabelle
  imports Main "HOL-Library.Sublist"
begin

section \<open>Strings of the suggestion source\<close>

text \<open>
  A JavaScript string is modelled as a \<open>string\<close>, one \<open>char\<close> per code unit, which
  covers the code units \<open>0x00\<close> to \<open>0xFF\<close> (Latin-1): every city name of the data
  table lies in that range (the accented letter of the second city is the code unit
  \<open>0xE1\<close>). On these code units \<open>String.prototype.toLowerCase\<close> works unit by unit:
  \<open>A\<close> to \<open>Z\<close> and the upper-case letters \<open>0xC0\<close> to \<open>0xDE\<close> (the multiplication sign
  \<open>0xD7\<close> apart) move up by \<open>0x20\<close>, every other unit stays. \<open>trim\<close> removes the
  white space and line terminators of the range: \<open>0x09\<close> to \<open>0x0D\<close>, \<open>0x20\<close> and
  \<open>0xA0\<close>.
\<close>

definition lower_unit :: "char \<Rightarrow> char" where
  "lower_unit c =
     (let n = (of_char c :: nat)
      in if (65 \<le> n \<and> n \<le> 90) \<or> (192 \<le> n \<and> n \<le> 214) \<or> (216 \<le> n \<and> n \<le> 222)
         then char_of (n + 32) else c)"

definition toLowerCase :: "string \<Rightarrow> string" where
  "toLowerCase s = map lower_unit s"

definition is_space :: "char \<Rightarrow> bool" where
  "is_space c = (let n = (of_char c :: nat) in (9 \<le> n \<and> n \<le> 13) \<or> n = 32 \<or> n = 160)"

definition trim :: "string \<Rightarrow> string" where
  "trim s = rev (dropWhile is_space (rev (dropWhile is_space s)))"

text \<open>
  \<open>String.prototype.includes\<close>: does \<open>t\<close> occur in \<open>s\<close> as a contiguous run of code
  units, at some position.
\<close>

fun str_includes :: "string \<Rightarrow> string \<Rightarrow> bool" where
  "str_includes [] t = (t = [])"
| "str_includes (x # xs) t = (prefix t (x # xs) \<or> str_includes xs t)"

section \<open>The suggestion source: \<open>searchCities\<close>\<close>

text \<open>
  \<open>api.ts\<close>: the table \<open>data\<close> and the filter that the 400 ms timer of \<open>searchCities\<close>
  resolves the promise with. Rejection on abort is part of the request life cycle
  further down; this is the value of a request that is not cancelled.
\<close>

definition data :: "string list" where
  "data =
     [''Boston'', ''Bogot'' @ [CHR 0xE1], ''Buenos Aires'', ''Bangalore'',
      ''Berlin'', ''Barcelona'', ''Beijing'', ''Brisbane'']"

definition searchCities :: "string \<Rightarrow> string list" where
  "searchCities q = filter (\<lambda>c. str_includes (toLowerCase c) (toLowerCase q)) data"

section \<open>The \<open>Autocomplete\<close> component\<close>

text \<open>
  The component is a state machine over the events of the single UI event loop: each
  handler, timer callback and promise continuation runs to completion. The state holds
  the five \<open>useState\<close> cells, the three refs, and what the environment holds for the
  component: the requests given to \<open>searchCities\<close> that have neither resolved nor been
  aborted (\<open>inflight\<close>), the log of every call of \<open>searchCities\<close> (\<open>issued\<close>), what
  \<open>console.error\<close> received, and the values \<open>onSelect\<close> was called with.

  An \<open>AbortController\<close> is named by the number of calls of \<open>searchCities\<close> before it.
  \<open>debounceRef\<close> holds the pending timer as the \<open>q\<close> its callback closes over, and
  \<open>None\<close> when no timer is pending: the stale id that the ref keeps after its timer
  has fired is only ever given to \<open>clearTimeout\<close>, which ignores it.
\<close>

datatype js_error =
    DOMException string string   \<comment> \<open>message, name\<close>
  | Error string
  | TypeError string

record state =
  query :: string
  results :: "string list"
  isOpen :: bool
  loading :: bool
  highlightedIndex :: int
  controllerRef :: "nat option"
  debounceRef :: "string option"
  cacheRef :: "string \<rightharpoonup> string list"
  inflight :: "(nat \<times> string) list"
  issued :: "(nat \<times> string) list"
  console :: "js_error list"
  selected :: "string list"

datatype key = ArrowDown | ArrowUp | Enter | Escape | OtherKey

datatype event =
    Change string              \<comment> \<open>\<open>onChange\<close> of the input, with \<open>e.target.value\<close>\<close>
  | KeyDown key                \<comment> \<open>\<open>onKeyDown\<close> of the input\<close>
  | ItemMouseDown nat          \<comment> \<open>\<open>onMouseDown\<close> of the option at an index\<close>
  | ItemMouseEnter nat         \<comment> \<open>\<open>onMouseEnter\<close> of the option at an index\<close>
  | OutsideMouseDown           \<comment> \<open>\<open>mousedown\<close> on the document, outside the root\<close>
  | DebounceTimeout            \<comment> \<open>the 300 ms timer of the effect fires\<close>
  | FetchResolved nat          \<comment> \<open>the 400 ms timer of a request fires: it resolves\<close>
  | FetchRejected nat js_error \<comment> \<open>the source rejects a request on its own\<close>

subsection \<open>The debounce effect, lines 69 to 117\<close>

text \<open>
  The body of the effect keyed on \<open>[query, minQueryLength]\<close>, up to the point where
  the timer is set. It runs after a render in which \<open>query\<close> changed, and once on
  mount.
\<close>

definition queryEffect :: "int \<Rightarrow> state \<Rightarrow> state" where
  "queryEffect minQueryLength s =
     (let s1 = s\<lparr>debounceRef := None\<rparr>;
          q = trim (query s)
      in if int (length q) < minQueryLength
         then s1\<lparr>results := [], loading := False\<rparr>
         else s1\<lparr>loading := True, debounceRef := Some q\<rparr>)"

text \<open>The \<open>finally\<close> block of the timer callback.\<close>

definition finally_block :: "state \<Rightarrow> state" where
  "finally_block s = s\<lparr>loading := False, controllerRef := None, highlightedIndex := - 1\<rparr>"

definition is_abort :: "js_error \<Rightarrow> bool" where
  "is_abort err = (case err of DOMException msg name \<Rightarrow> name = ''AbortError'' | _ \<Rightarrow> False)"

text \<open>
  The rest of the timer callback after \<open>await searchCities(q, ...)\<close>: the \<open>try\<close> body
  on a resolved promise, the \<open>catch\<close> on a rejected one, then the \<open>finally\<close> block.
\<close>

definition settled :: "string \<Rightarrow> js_error + string list \<Rightarrow> state \<Rightarrow> state" where
  "settled q outcome s =
     finally_block
       (case outcome of
          Inr res \<Rightarrow> s\<lparr>cacheRef := (cacheRef s)(q \<mapsto> res), results := res\<rparr>
        | Inl err \<Rightarrow> if is_abort err then s else s\<lparr>console := console s @ [err]\<rparr>)"

text \<open>
  \<open>controllerRef.current?.abort()\<close>. The listener that \<open>searchCities\<close> put on the
  signal clears the request's timer and rejects its promise, so the request is no
  longer in flight; the continuation of the awaiting callback is queued as a microtask
  and runs when the current handler has finished. The result says which request, if
  any, was rejected. A controller whose request has settled has nothing left to
  reject.
\<close>

definition abort :: "state \<Rightarrow> state \<times> string option" where
  "abort s =
     (case controllerRef s of
        None \<Rightarrow> (s, None)
      | Some c \<Rightarrow>
          (case map_of (inflight s) c of
             None \<Rightarrow> (s, None)
           | Some q \<Rightarrow> (s\<lparr>inflight := filter (\<lambda>r. fst r \<noteq> c) (inflight s)\<rparr>, Some q)))"

definition aborted_continuation :: "string option \<Rightarrow> state \<Rightarrow> state" where
  "aborted_continuation rejected s =
     (case rejected of
        None \<Rightarrow> s
      | Some q \<Rightarrow> settled q (Inl (DOMException ''Aborted'' ''AbortError'')) s)"

text \<open>
  The timer callback, lines 84 to 109, up to its \<open>await\<close>, followed by the microtask
  that an abort in it has queued.
\<close>

definition onTimeout :: "string \<Rightarrow> state \<Rightarrow> state" where
  "onTimeout q s =
     (case cacheRef s q of
        Some cached \<Rightarrow> s\<lparr>results := cached, loading := False, highlightedIndex := - 1\<rparr>
      | None \<Rightarrow>
          (case abort s of
             (s1, rejected) \<Rightarrow>
               let controller = length (issued s1);
                   s2 = s1\<lparr>controllerRef := Some controller,
                           inflight := inflight s1 @ [(controller, q)],
                           issued := issued s1 @ [(controller, q)]\<rparr>
               in aborted_continuation rejected s2))"

subsection \<open>Selection and the keyboard, lines 120 to 150\<close>

text \<open>
  \<open>select\<close> sets the query, so the render that follows re-runs the debounce effect
  when the value differs from the text shown. The effect runs in that render, before
  the microtask of a request that \<open>select\<close> aborted.
\<close>

definition select :: "int \<Rightarrow> string \<Rightarrow> state \<Rightarrow> state" where
  "select minQueryLength v s =
     (let s1 = s\<lparr>query := v, isOpen := False, highlightedIndex := - 1\<rparr>
      in case abort s1 of
           (s2, rejected) \<Rightarrow>
             let s3 = s2\<lparr>selected := selected s2 @ [v]\<rparr>;
                 s4 = (if v = query s then s3 else queryEffect minQueryLength s3)
             in aborted_continuation rejected s4)"

text \<open>
  \<open>Enter\<close> with a highlight past the end of \<open>results\<close> reads \<open>undefined\<close> and hands it
  to \<open>select\<close>; the effect of the next render then calls \<open>trim\<close> on it and throws.
\<close>

definition onKeyDown :: "int \<Rightarrow> key \<Rightarrow> state \<Rightarrow> js_error + state" where
  "onKeyDown minQueryLength k s =
     (case k of
        ArrowDown \<Rightarrow>
          Inr (let s1 = s\<lparr>isOpen := True\<rparr>
               in if length (results s) = 0 then s1
                  else s1\<lparr>highlightedIndex :=
                         (if highlightedIndex s < int (length (results s)) - 1
                          then highlightedIndex s + 1 else 0)\<rparr>)
      | ArrowUp \<Rightarrow>
          Inr (let s1 = s\<lparr>isOpen := True\<rparr>
               in if length (results s) = 0 then s1
                  else s1\<lparr>highlightedIndex :=
                         (if highlightedIndex s \<le> 0
                          then int (length (results s)) - 1 else highlightedIndex s - 1)\<rparr>)
      | Enter \<Rightarrow>
          if isOpen s \<and> highlightedIndex s \<ge> 0
          then if nat (highlightedIndex s) < length (results s)
               then Inr (select minQueryLength (results s ! nat (highlightedIndex s)) s)
               else Inl (TypeError ''query.trim'')
          else Inr s
      | Escape \<Rightarrow> Inr (s\<lparr>isOpen := False, highlightedIndex := - 1\<rparr>)
      | OtherKey \<Rightarrow> Inr s)"

subsection \<open>The event loop\<close>

text \<open>
  An option element, with its mouse handlers, exists only while the panel is open and
  shows the list.
\<close>

definition item_rendered :: "state \<Rightarrow> nat \<Rightarrow> bool" where
  "item_rendered s i = (isOpen s \<and> \<not> loading s \<and> i < length (results s))"

text \<open>
  One event. \<open>onChange\<close> sets the query and opens the panel; the debounce effect
  re-runs in the render that follows when \<open>query\<close> has changed (its dependency), and
  not otherwise. A timer or a request that is no longer pending has no event. The
  life of the component is taken from mount up to unmount; the cleanup on unmount is
  not part of it.
\<close>

definition step :: "int \<Rightarrow> state \<Rightarrow> event \<Rightarrow> js_error + state" where
  "step minQueryLength s ev =
     (case ev of
        Change v \<Rightarrow>
          Inr (let s1 = s\<lparr>query := v, isOpen := True\<rparr>
               in if v = query s then s1 else queryEffect minQueryLength s1)
      | KeyDown k \<Rightarrow> onKeyDown minQueryLength k s
      | ItemMouseDown i \<Rightarrow>
          Inr (if item_rendered s i then select minQueryLength (results s ! i) s else s)
      | ItemMouseEnter i \<Rightarrow>
          Inr (if item_rendered s i then s\<lparr>highlightedIndex := int i\<rparr> else s)
      | OutsideMouseDown \<Rightarrow> Inr (s\<lparr>isOpen := False, highlightedIndex := - 1\<rparr>)
      | DebounceTimeout \<Rightarrow>
          Inr (case debounceRef s of
                 None \<Rightarrow> s
               | Some q \<Rightarrow> onTimeout q (s\<lparr>debounceRef := None\<rparr>))
      | FetchResolved c \<Rightarrow>
          Inr (case map_of (inflight s) c of
                 None \<Rightarrow> s
               | Some q \<Rightarrow>
                   settled q (Inr (searchCities q))
                     (s\<lparr>inflight := filter (\<lambda>r. fst r \<noteq> c) (inflight s)\<rparr>))
      | FetchRejected c err \<Rightarrow>
          Inr (case map_of (inflight s) c of
                 None \<Rightarrow> s
               | Some q \<Rightarrow>
                   settled q (Inl err)
                     (s\<lparr>inflight := filter (\<lambda>r. fst r \<noteq> c) (inflight s)\<rparr>)))"

text \<open>Mounting: the initial values of the cells and refs, then the effect's first run.\<close>

definition mount :: "int \<Rightarrow> state" where
  "mount minQueryLength =
     queryEffect minQueryLength
       \<lparr>query = [], results = [], isOpen = False, loading = False, highlightedIndex = - 1,
        controllerRef = None, debounceRef = None, cacheRef = Map.empty,
        inflight = [], issued = [], console = [], selected = []\<rparr>"

fun run :: "int \<Rightarrow> state \<Rightarrow> event list \<Rightarrow> js_error + state" where
  "run minQueryLength s [] = Inr s"
| "run minQueryLength s (ev # evs) =
     (case step minQueryLength s ev of
        Inl err \<Rightarrow> Inl err
      | Inr s' \<Rightarrow> run minQueryLength s' evs)"

inductive reachable :: "int \<Rightarrow> state \<Rightarrow> bool" for minQueryLength :: int where
  mounted: "reachable minQueryLength (mount minQueryLength)"
| stepped: "reachable minQueryLength s \<Longrightarrow> step minQueryLength s ev = Inr s'
            \<Longrightarrow> reachable minQueryLength s'"

subsection \<open>The highlight invariant and two states used as examples\<close>

text \<open>
  What every reachable state satisfies about the highlight: it is at least \<open>-1\<close>,
  it is below the length of a nonempty \<open>results\<close>, and it is \<open>-1\<close> while the panel is
  closed. (With \<open>results\<close> empty the highlight may be any value from \<open>-1\<close> up.)
\<close>

definition hl_inv :: "state \<Rightarrow> bool" where
  "hl_inv s =
     (- 1 \<le> highlightedIndex s
      \<and> (results s = [] \<or> highlightedIndex s < int (length (results s)))
      \<and> (isOpen s \<or> highlightedIndex s = - 1))"

text \<open>
  With \<open>minQueryLength = 1\<close>: the state after typing \<open>b\<close> and letting the debounce
  timer fire (\<open>fetching_b\<close>), and the state after that request has resolved
  (\<open>loaded_b\<close>).
\<close>

definition fetching_b :: state where
  "fetching_b =
     \<lparr>query = ''b'', results = [], isOpen = True, loading = True, highlightedIndex = - 1,
      controllerRef = Some 0, debounceRef = None, cacheRef = Map.empty,
      inflight = [(0, ''b'')], issued = [(0, ''b'')], console = [], selected = []\<rparr>"

definition loaded_b :: state where
  "loaded_b =
     \<lparr>query = ''b'', results = data, isOpen = True, loading = False, highlightedIndex = - 1,
      controllerRef = None, debounceRef = None, cacheRef = [''b'' \<mapsto> data],
      inflight = [], issued = [(0, ''b'')], console = [], selected = []\<rparr>"

text \<open>
  With \<open>minQueryLength = 1\<close>: \<open>b\<close> and \<open>bo\<close> have been fetched and cached, \<open>b\<close> was
  typed again while the request for \<open>bo\<close> was in flight, that request has resolved in
  the debounce window and \<open>Escape\<close> has closed the panel. The timer for \<open>b\<close> is
  pending, \<open>loading\<close> is false and the panel is closed (\<open>stale_window\<close>).
\<close>

definition stale_window :: state where
  "stale_window =
     \<lparr>query = ''b'', results = [''Boston'', ''Bogot'' @ [CHR 0xE1]], isOpen = False,
      loading = False, highlightedIndex = - 1,
      controllerRef = None, debounceRef = Some ''b'',
      cacheRef = [''b'' \<mapsto> data, ''bo'' \<mapsto> [''Boston'', ''Bogot'' @ [CHR 0xE1]]],
      inflight = [], issued = [(0, ''b''), (1, ''bo'')], console = [], selected = []\<rparr>"

section \<open>Properties of the suggestion source\<close>

lemma includes_sublist: "str_includes s t \<longleftrightarrow> sublist t s"
  by (induction s) (simp_all add: sublist_Cons_right)

lemma includes_iff: "str_includes s t \<longleftrightarrow> (\<exists>p r. s = p @ t @ r)"
  by (simp add: includes_sublist sublist_def)

lemma includes_empty: "str_includes s []"
  by (simp add: includes_sublist)

text \<open>
  C10. For every query \<open>q\<close>, a request that is not cancelled resolves to exactly the
  entries of the fixed table of eight cities whose lower-case form contains the
  lower-case form of \<open>q\<close> as a contiguous substring, in the order of the table; the
  empty query gives all eight cities.
\<close>

theorem searchCities_spec:
  "searchCities q =
     filter (\<lambda>c. \<exists>p r. toLowerCase c = p @ toLowerCase q @ r)
       [''Boston'', ''Bogot'' @ [CHR 0xE1], ''Buenos Aires'', ''Bangalore'',
        ''Berlin'', ''Barcelona'', ''Beijing'', ''Brisbane'']
   \<and> subseq (searchCities q) data
   \<and> searchCities [] =
       [''Boston'', ''Bogot'' @ [CHR 0xE1], ''Buenos Aires'', ''Bangalore'',
        ''Berlin'', ''Barcelona'', ''Beijing'', ''Brisbane'']"
proof -
  have a: "searchCities q = filter (\<lambda>c. \<exists>p r. toLowerCase c = p @ toLowerCase q @ r) data"
    by (simp add: searchCities_def includes_iff)
  have b: "subseq (searchCities q) data"
    by (simp add: searchCities_def)
  have c: "searchCities [] = data"
    by (simp add: searchCities_def toLowerCase_def includes_empty)
  show ?thesis using a b c by (simp add: data_def)
qed


section \<open>Evaluating the component on concrete event sequences\<close>

lemmas handler_defs =
  step_def onKeyDown_def select_def onTimeout_def aborted_continuation_def abort_def
  settled_def is_abort_def finally_block_def queryEffect_def item_rendered_def

lemma searchCities_b: "searchCities ''b'' = data"
  by code_simp

lemma searchCities_bo: "searchCities ''bo'' = [''Boston'', ''Bogot'' @ [CHR 0xE1]]"
  by code_simp

lemma trim_simple [simp]:
  "trim [] = []" "trim ''b'' = ''b''" "trim ''bo'' = ''bo''" "trim ''bos'' = ''bos''"
  "trim ''Boston'' = ''Boston''"
  by (simp_all add: trim_def is_space_def)

lemma mount_1:
  "mount 1 =
     \<lparr>query = [], results = [], isOpen = False, loading = False, highlightedIndex = - 1,
      controllerRef = None, debounceRef = None, cacheRef = Map.empty,
      inflight = [], issued = [], console = [], selected = []\<rparr>"
  by (simp add: mount_def queryEffect_def)

lemma run_loaded_b:
  "run 1 (mount 1) [Change ''b'', DebounceTimeout, FetchResolved 0] = Inr loaded_b"
  by (simp add: mount_1 handler_defs loaded_b_def searchCities_b)

lemma run_fetching_b: "run 1 (mount 1) [Change ''b'', DebounceTimeout] = Inr fetching_b"
  by (simp add: mount_1 handler_defs fetching_b_def)

lemma run_stale_window:
  "run 1 (mount 1)
     [Change ''b'', DebounceTimeout, FetchResolved 0, Change ''bo'', DebounceTimeout,
      Change ''b'', FetchResolved 1, KeyDown Escape] = Inr stale_window"
  by (simp add: mount_1 handler_defs stale_window_def searchCities_b searchCities_bo)

section \<open>The highlight invariant holds in every reachable state\<close>

lemma hl_inv_settled: "hl_inv (settled q outcome s)"
  by (simp add: hl_inv_def settled_def finally_block_def split: sum.splits)

lemma hl_inv_continuation: "hl_inv s \<Longrightarrow> hl_inv (aborted_continuation r s)"
  by (simp add: aborted_continuation_def hl_inv_settled split: option.splits)

lemma abort_view:
  "results (fst (abort s)) = results s"
  "highlightedIndex (fst (abort s)) = highlightedIndex s"
  "isOpen (fst (abort s)) = isOpen s"
  "query (fst (abort s)) = query s"
  by (simp_all add: abort_def split: option.splits)

lemma hl_inv_queryEffect: "hl_inv s \<Longrightarrow> hl_inv (queryEffect m s)"
  by (simp add: hl_inv_def queryEffect_def Let_def)

lemma hl_inv_onTimeout: "hl_inv s \<Longrightarrow> hl_inv (onTimeout q s)"
proof (cases "cacheRef s q")
  case (Some cached)
  then show ?thesis by (simp add: onTimeout_def hl_inv_def)
next
  case None
  assume inv: "hl_inv s"
  obtain s1 r where a: "abort s = (s1, r)" by (cases "abort s")
  have "hl_inv s1"
    using inv abort_view [of s] a by (simp add: hl_inv_def)
  then have "hl_inv (s1\<lparr>controllerRef := Some (length (issued s1)),
                         inflight := inflight s1 @ [(length (issued s1), q)],
                         issued := issued s1 @ [(length (issued s1), q)]\<rparr>)"
    by (simp add: hl_inv_def)
  then show ?thesis
    using None a by (simp add: onTimeout_def Let_def hl_inv_continuation)
qed

lemma hl_inv_select: "hl_inv (select m v s)"
proof -
  let ?s1 = "s\<lparr>query := v, isOpen := False, highlightedIndex := - 1\<rparr>"
  obtain s2 r where a: "abort ?s1 = (s2, r)" by (cases "abort ?s1")
  have "hl_inv s2"
    using abort_view [of ?s1] a by (simp add: hl_inv_def)
  then have b: "hl_inv (s2\<lparr>selected := selected s2 @ [v]\<rparr>)"
    by (simp add: hl_inv_def)
  have "hl_inv (if v = query s then s2\<lparr>selected := selected s2 @ [v]\<rparr>
                else queryEffect m (s2\<lparr>selected := selected s2 @ [v]\<rparr>))"
    using b by (cases "v = query s") (simp_all add: hl_inv_queryEffect)
  then show ?thesis
    using a by (simp add: select_def Let_def hl_inv_continuation)
qed

lemma hl_inv_onKeyDown:
  assumes "hl_inv s" and "onKeyDown m k s = Inr s'"
  shows "hl_inv s'"
proof (cases k)
  case Enter
  then show ?thesis
    using assms hl_inv_select [of m "results s ! nat (highlightedIndex s)" s]
    by (auto simp: onKeyDown_def split: if_splits)
qed (use assms in \<open>auto simp: onKeyDown_def hl_inv_def Let_def split: if_splits\<close>)

lemma hl_inv_step:
  assumes "hl_inv s" and "step m s ev = Inr s'"
  shows "hl_inv s'"
proof (cases ev)
  case (Change v)
  then have "s' = (if v = query s then s\<lparr>query := v, isOpen := True\<rparr>
                   else queryEffect m (s\<lparr>query := v, isOpen := True\<rparr>))"
    using assms by (simp add: step_def Let_def)
  moreover have "hl_inv (s\<lparr>query := v, isOpen := True\<rparr>)"
    using assms by (auto simp: hl_inv_def)
  ultimately show ?thesis by (cases "v = query s") (simp_all add: hl_inv_queryEffect)
next
  case (KeyDown k)
  then show ?thesis using assms hl_inv_onKeyDown [of s m k s'] by (simp add: step_def)
next
  case (ItemMouseDown i)
  then show ?thesis using assms hl_inv_select [of m "results s ! i" s]
    by (auto simp: step_def split: if_splits)
next
  case (ItemMouseEnter i)
  then show ?thesis using assms
    by (auto simp: step_def item_rendered_def hl_inv_def split: if_splits)
next
  case OutsideMouseDown
  then show ?thesis using assms by (auto simp: step_def hl_inv_def)
next
  case DebounceTimeout
  show ?thesis
  proof (cases "debounceRef s")
    case None
    then show ?thesis using assms DebounceTimeout by (simp add: step_def)
  next
    case (Some q)
    have "hl_inv (s\<lparr>debounceRef := None\<rparr>)"
      using assms by (simp add: hl_inv_def)
    then show ?thesis
      using assms DebounceTimeout Some hl_inv_onTimeout [of "s\<lparr>debounceRef := None\<rparr>" q]
      by (simp add: step_def)
  qed
next
  case (FetchResolved c)
  then show ?thesis using assms
    by (auto simp: step_def hl_inv_settled split: option.splits)
next
  case (FetchRejected c err)
  then show ?thesis using assms
    by (auto simp: step_def hl_inv_settled split: option.splits)
qed

lemma hl_inv_mount: "hl_inv (mount m)"
  by (simp add: mount_def queryEffect_def hl_inv_def Let_def)

lemma reachable_hl_inv: "reachable m s \<Longrightarrow> hl_inv s"
  by (induction rule: reachable.induct) (auto intro: hl_inv_mount hl_inv_step)

lemma run_reachable: "reachable m s \<Longrightarrow> run m s evs = Inr s' \<Longrightarrow> reachable m s'"
  by (induction evs arbitrary: s) (auto split: sum.splits intro: reachable.stepped)

lemma reachable_loaded_b: "reachable 1 loaded_b"
  by (rule run_reachable [OF reachable.mounted run_loaded_b])

lemma reachable_fetching_b: "reachable 1 fetching_b"
  by (rule run_reachable [OF reachable.mounted run_fetching_b])

section \<open>Single flight of requests\<close>

text \<open>
  C1. The claim: at most one request is live at any instant, and issuing a new fetch
  cancels a prior request that is still pending. The component breaks it. The
  \<open>finally\<close> block of an aborted request runs after the callback that aborted it has
  stored the new controller, and sets \<open>controllerRef.current\<close> to \<open>null\<close>; the next
  timer callback then finds nothing to abort. Typing \<open>b\<close>, \<open>bo\<close>, \<open>bos\<close> with each
  debounce timer firing before the next keystroke (0, 310 and 620 ms, timers at 300,
  610 and 920 ms, the second request resolving only at 1010 ms): before the third
  timer fires the ref is empty while request 1 is in flight, and after it requests 1
  and 2 are both in flight.
\<close>

theorem single_flight_broken:
  "map_sum id (\<lambda>s. (controllerRef s, inflight s))
     (run 1 (mount 1)
        [Change ''b'', DebounceTimeout, Change ''bo'', DebounceTimeout, Change ''bos''])
   = Inr (None, [(1, ''bo'')])
   \<and> map_sum id inflight
     (run 1 (mount 1)
        [Change ''b'', DebounceTimeout, Change ''bo'', DebounceTimeout, Change ''bos'',
         DebounceTimeout])
   = Inr [(1, ''bo''), (2, ''bos'')]"
  by (simp add: mount_1 handler_defs)

section \<open>The highlight after a change of the results\<close>

text \<open>
  C2. The claim: the highlight is within the bounds of the current results or \<open>-1\<close>,
  and is \<open>-1\<close> after every change of the results, the clearing for a short query
  included. The short-query branch of the effect clears \<open>results\<close> and leaves the
  highlight as it was, where the cached branch and the \<open>finally\<close> block both reset it.
  After loading the eight cities for \<open>b\<close>, three presses of \<open>ArrowDown\<close> and emptying
  the input, \<open>results\<close> is empty and the highlight is 2; \<open>Enter\<close> in that state reads
  past the end of \<open>results\<close> and the component throws.
\<close>

theorem highlight_survives_clearing:
  "map_sum id (\<lambda>s. (results s, highlightedIndex s))
     (run 1 (mount 1)
        [Change ''b'', DebounceTimeout, FetchResolved 0,
         KeyDown ArrowDown, KeyDown ArrowDown, KeyDown ArrowDown, Change []])
   = Inr ([], 2)
   \<and> run 1 (mount 1)
        [Change ''b'', DebounceTimeout, FetchResolved 0,
         KeyDown ArrowDown, KeyDown ArrowDown, KeyDown ArrowDown, Change [], KeyDown Enter]
   = Inl (TypeError ''query.trim'')"
  by (simp add: mount_1 handler_defs searchCities_b data_def)

section \<open>What an abort, a commit and a firing timer leave unchanged\<close>

lemma abort_keeps:
  "issued (fst (abort s)) = issued s"
  "selected (fst (abort s)) = selected s"
  "debounceRef (fst (abort s)) = debounceRef s"
  "loading (fst (abort s)) = loading s"
  by (simp_all add: abort_def split: option.splits)

lemma continuation_keeps:
  "issued (aborted_continuation r s) = issued s"
  "selected (aborted_continuation r s) = selected s"
  "debounceRef (aborted_continuation r s) = debounceRef s"
  by (simp_all add: aborted_continuation_def settled_def finally_block_def is_abort_def
      split: option.splits)

lemma abort_cache:
  "cacheRef (fst (abort s)) = cacheRef s"
  "inflight (fst (abort s)) = inflight (fst (abort (s\<lparr>debounceRef := d\<rparr>)))"
  by (simp_all add: abort_def split: option.splits)

lemma continuation_cache: "cacheRef (aborted_continuation r s) = cacheRef s"
  by (simp add: aborted_continuation_def settled_def finally_block_def is_abort_def
      split: option.splits)

lemma continuation_inflight: "inflight (aborted_continuation r s) = inflight s"
  by (simp add: aborted_continuation_def settled_def finally_block_def is_abort_def
      split: option.splits)

lemma fire_cached:
  assumes "debounceRef t = Some q" and "cacheRef t q = Some hit"
  shows "step minQ t DebounceTimeout =
           Inr (t\<lparr>debounceRef := None, results := hit, loading := False,
                  highlightedIndex := - 1\<rparr>)"
  using assms by (simp add: step_def onTimeout_def)

lemma fire_uncached:
  assumes "debounceRef t = Some q" and "cacheRef t q = None"
  shows "map_sum id (\<lambda>t'. (issued t', inflight t')) (step minQ t DebounceTimeout) =
           Inr (issued t @ [(length (issued t), q)],
                inflight (fst (abort t)) @ [(length (issued t), q)])"
proof -
  let ?t0 = "t\<lparr>debounceRef := None\<rparr>"
  obtain s1 r where a: "abort ?t0 = (s1, r)" by (cases "abort ?t0")
  have k: "issued s1 = issued t" "inflight s1 = inflight (fst (abort t))"
    using abort_keeps(1) [of ?t0] abort_cache(2) [of t None] a by simp_all
  show ?thesis
    using assms a k
    by (simp add: step_def onTimeout_def Let_def continuation_keeps continuation_inflight)
qed

lemma queryEffect_cache: "cacheRef (queryEffect m s) = cacheRef s"
  by (simp add: queryEffect_def Let_def)

lemma select_cache: "cacheRef (select m v s) = cacheRef s"
proof -
  let ?s1 = "s\<lparr>query := v, isOpen := False, highlightedIndex := - 1\<rparr>"
  obtain s2 r where a: "abort ?s1 = (s2, r)" by (cases "abort ?s1")
  have "cacheRef s2 = cacheRef s" using abort_cache(1) [of ?s1] a by simp
  then show ?thesis
    using a by (simp add: select_def Let_def continuation_cache queryEffect_cache)
qed

lemma onTimeout_cache: "cacheRef (onTimeout q s) = cacheRef s"
proof (cases "cacheRef s q")
  case None
  obtain s1 r where a: "abort s = (s1, r)" by (cases "abort s")
  have "cacheRef s1 = cacheRef s" using abort_cache(1) [of s] a by simp
  then show ?thesis using None a by (simp add: onTimeout_def Let_def continuation_cache)
next
  case (Some c)
  then show ?thesis by (simp add: onTimeout_def)
qed

lemma cache_persists:
  assumes "step minQ t ev = Inr t'" and "cacheRef t q = Some hit"
  shows "cacheRef t' q = Some hit \<or> cacheRef t' q = Some (searchCities q)"
proof (cases ev)
  case (KeyDown k)
  then show ?thesis using assms
    by (cases k) (auto simp: step_def onKeyDown_def select_cache Let_def split: if_splits)
next
  case DebounceTimeout
  then show ?thesis using assms
    by (auto simp: step_def onTimeout_cache split: option.splits)
qed (use assms in \<open>auto simp: step_def select_cache queryEffect_cache settled_def
       finally_block_def Let_def split: option.splits if_splits\<close>)

section \<open>Cached queries\<close>

text \<open>
  C3, as the code has it. For a text whose trimmed form is in the cache (the text
  differs from the one shown, and its trimmed length is at least \<open>minQueryLength\<close>):
  the submission reports loading and starts the debounce timer, and when the timer
  fires next, the cached results are reported. In whatever state the timer of a cached
  query fires (whatever \<open>loading\<close> and the panel are by then), the cached results are
  reported, loading is cleared, the highlight is reset, and nothing else changes: no
  request is created or cancelled and the cache is as before. No event removes an
  entry of the cache: at most a request for the same query that settles writes the
  value of \<open>searchCities\<close> for it again.
\<close>

theorem cached_query_served_without_fetch:
  "(cacheRef s (trim raw) = Some cached \<and> raw \<noteq> query s \<and> minQ \<le> int (length (trim raw))
      \<longrightarrow> step minQ s (Change raw) =
            Inr (s\<lparr>query := raw, isOpen := True, loading := True,
                   debounceRef := Some (trim raw)\<rparr>)
          \<and> run minQ s [Change raw, DebounceTimeout] =
            Inr (s\<lparr>query := raw, isOpen := True, loading := False, debounceRef := None,
                   results := cached, highlightedIndex := - 1\<rparr>))
   \<and> (debounceRef t = Some q \<and> cacheRef t q = Some hit
      \<longrightarrow> step minQ t DebounceTimeout =
            Inr (t\<lparr>debounceRef := None, results := hit, loading := False,
                   highlightedIndex := - 1\<rparr>))
   \<and> (step minQ u ev = Inr u' \<and> cacheRef u q = Some hit
      \<longrightarrow> cacheRef u' q = Some hit \<or> cacheRef u' q = Some (searchCities q))"
proof -
  have a: "step minQ s (Change raw) =
            Inr (s\<lparr>query := raw, isOpen := True, loading := True,
                   debounceRef := Some (trim raw)\<rparr>)
          \<and> run minQ s [Change raw, DebounceTimeout] =
            Inr (s\<lparr>query := raw, isOpen := True, loading := False, debounceRef := None,
                   results := cached, highlightedIndex := - 1\<rparr>)"
    if "cacheRef s (trim raw) = Some cached" "raw \<noteq> query s" "minQ \<le> int (length (trim raw))"
    using that by (simp add: step_def queryEffect_def onTimeout_def Let_def)
  show ?thesis
    using a fire_cached [of t q hit minQ] cache_persists [of minQ u ev u' q hit] by blast
qed

text \<open>
  Witness for C3: the text \<open>b\<close> typed again into the emptied input, with \<open>b\<close> cached;
  the timer for \<open>b\<close> firing in \<open>stale_window\<close>, where \<open>loading\<close> is false and the
  panel is closed; and a key press there, which leaves the entry for \<open>b\<close> in the cache.
\<close>

theorem cached_query_witness:
  "cacheRef (loaded_b\<lparr>query := []\<rparr>) (trim ''b'') = Some data
   \<and> ''b'' \<noteq> query (loaded_b\<lparr>query := []\<rparr>) \<and> (1 :: int) \<le> int (length (trim ''b''))
   \<and> run 1 (loaded_b\<lparr>query := []\<rparr>) [Change ''b'', DebounceTimeout] = Inr loaded_b
   \<and> debounceRef stale_window = Some ''b'' \<and> cacheRef stale_window ''b'' = Some data
   \<and> loading stale_window = False \<and> isOpen stale_window = False
   \<and> step 1 stale_window DebounceTimeout =
        Inr (stale_window\<lparr>debounceRef := None, results := data\<rparr>)
   \<and> step 1 stale_window (KeyDown ArrowDown) =
        Inr (stale_window\<lparr>isOpen := True, highlightedIndex := 0\<rparr>)
   \<and> cacheRef (stale_window\<lparr>isOpen := True, highlightedIndex := 0\<rparr>) ''b'' = Some data"
proof -
  let ?s = "loaded_b\<lparr>query := []\<rparr>"
  let ?u = "stale_window\<lparr>isOpen := True, highlightedIndex := 0\<rparr>"
  note T = cached_query_served_without_fetch [of ?s "''b''" data 1 stale_window "''b''" data
      stale_window "KeyDown ArrowDown" ?u]
  have a: "cacheRef ?s (trim ''b'') = Some data" by (simp add: loaded_b_def)
  have b: "''b'' \<noteq> query ?s" by simp
  have c: "(1 :: int) \<le> int (length (trim ''b''))" by simp
  have d: "debounceRef stale_window = Some ''b''" "cacheRef stale_window ''b'' = Some data"
    "loading stale_window = False" "isOpen stale_window = False"
    by (simp_all add: stale_window_def)
  have f: "step 1 stale_window (KeyDown ArrowDown) = Inr ?u"
    by (simp add: step_def onKeyDown_def stale_window_def)
  have e: "?s\<lparr>query := ''b'', isOpen := True, loading := False, debounceRef := None,
              results := data, highlightedIndex := - 1\<rparr> = loaded_b"
    by (simp add: loaded_b_def)
  have e2: "stale_window\<lparr>debounceRef := None, results := data, loading := False,
              highlightedIndex := - 1\<rparr> = stale_window\<lparr>debounceRef := None, results := data\<rparr>"
    by (simp add: stale_window_def)
  have r1: "run 1 ?s [Change ''b'', DebounceTimeout] = Inr loaded_b"
    using T a b c unfolding e by blast
  have r2: "step 1 stale_window DebounceTimeout =
        Inr (stale_window\<lparr>debounceRef := None, results := data\<rparr>)"
    using T d unfolding e2 by blast
  have "cacheRef ?u ''b'' = Some data \<or> cacheRef ?u ''b'' = Some (searchCities ''b'')"
    using T f d by blast
  then have r3: "cacheRef ?u ''b'' = Some data"
    by (simp add: searchCities_b)
  show ?thesis
    using a b c d f r1 r2 r3 by (intro conjI)
qed

text \<open>
  C3 as stated fails: it says that no loading state is ever reported for a submission
  of a cached query. After \<open>b\<close> has been fetched and cached, the input emptied and
  \<open>b\<close> typed again, the query is in the cache, the debounce timer is pending and
  \<open>loading\<close> is true.
\<close>

theorem cached_submission_counterexample:
  "map_sum id (\<lambda>s. (cacheRef s (trim (query s)), debounceRef s, loading s))
     (run 1 (mount 1) [Change ''b'', DebounceTimeout, FetchResolved 0, Change [], Change ''b''])
   = Inr (Some data, Some ''b'', True)"
  by (simp add: mount_1 handler_defs searchCities_b)

section \<open>Queries shorter than the minimum\<close>

text \<open>
  C4, as the code has it. For a text that differs from the one shown and whose trimmed
  length is below \<open>minQueryLength\<close>: the submission clears the results, cancels the
  pending debounce timer and reports the state that is not loading. It issues no
  request, and it leaves a request in flight, and \<open>controllerRef\<close>, as they are.
\<close>

theorem short_query_clears_results:
  assumes "int (length (trim raw)) < minQ" and "raw \<noteq> query s"
  shows "step minQ s (Change raw) =
           Inr (s\<lparr>query := raw, isOpen := True, debounceRef := None,
                  results := [], loading := False\<rparr>)"
  using assms by (simp add: step_def queryEffect_def Let_def)

text \<open>
  Witness for C4: emptying the input while the request for \<open>b\<close> is in flight.
\<close>

theorem short_query_witness:
  "int (length (trim [])) < 1 \<and> [] \<noteq> query fetching_b
   \<and> step 1 fetching_b (Change []) = Inr (fetching_b\<lparr>query := [], loading := False\<rparr>)"
proof -
  have a: "int (length (trim [])) < 1" by simp
  have b: "[] \<noteq> query fetching_b" by (simp add: fetching_b_def)
  show ?thesis
    using a b short_query_clears_results [OF a b] by (simp add: fetching_b_def)
qed

text \<open>
  C4 as stated fails: it says that the submission of a short text cancels a live
  request. Emptying the input while the request for \<open>b\<close> is in flight leaves that
  request in flight and the ref pointing at it; when it resolves, the eight cities
  are shown for the empty text.
\<close>

theorem short_query_counterexample:
  "map_sum id (\<lambda>s. (query s, results s, controllerRef s, inflight s))
     (run 1 (mount 1) [Change ''b'', DebounceTimeout, Change []])
   = Inr ([], [], Some 0, [(0, ''b'')])
   \<and> map_sum id (\<lambda>s. (query s, results s))
     (run 1 (mount 1) [Change ''b'', DebounceTimeout, Change [], FetchResolved 0])
   = Inr ([], data)"
  by (simp add: mount_1 handler_defs searchCities_b)

section \<open>Committing a selection\<close>

text \<open>
  C5, as the code has it. \<open>Enter\<close> on a highlighted item and a pointer press on an
  item both run \<open>select\<close>. Committing a selection calls \<open>searchCities\<close> not at all,
  leaves the cache as it is and hands the value to \<open>onSelect\<close>. When the value equals
  the text shown, the pending debounce timer is as before. When it differs, the
  commit's \<open>setQuery\<close> re-runs the debounce effect: for a trimmed length of at least
  \<open>minQueryLength\<close> a timer for the trimmed value is started, otherwise the pending
  timer is cancelled. With no controller in the ref, \<open>loading\<close> is reported exactly
  when such a timer was started (and is unchanged when the value equals the text
  shown). When the timer that the commit started fires next, a request for the trimmed
  value is issued unless the value is cached; and in whatever state the timer of a
  query that is not cached fires, one request for that query is issued and is in
  flight.
\<close>

theorem select_resubmits_changed_text:
  "issued (select minQ v s) = issued s
   \<and> selected (select minQ v s) = selected s @ [v]
   \<and> cacheRef (select minQ v s) = cacheRef s
   \<and> debounceRef (select minQ v s) =
       (if v = query s then debounceRef s
        else if int (length (trim v)) < minQ then None else Some (trim v))
   \<and> (controllerRef s = None \<longrightarrow>
        loading (select minQ v s) =
          (if v = query s then loading s else minQ \<le> int (length (trim v))))
   \<and> (v \<noteq> query s \<and> minQ \<le> int (length (trim v)) \<longrightarrow>
        map_sum id issued (step minQ (select minQ v s) DebounceTimeout) =
          Inr (if cacheRef s (trim v) = None
               then issued s @ [(length (issued s), trim v)] else issued s))
   \<and> (debounceRef t = Some q \<and> cacheRef t q = None \<longrightarrow>
        map_sum id (\<lambda>t'. (issued t', inflight t')) (step minQ t DebounceTimeout) =
          Inr (issued t @ [(length (issued t), q)],
               inflight (fst (abort t)) @ [(length (issued t), q)]))
   \<and> (item_rendered s i \<longrightarrow>
        step minQ s (ItemMouseDown i) = Inr (select minQ (results s ! i) s))
   \<and> (isOpen s \<and> 0 \<le> highlightedIndex s \<and> nat (highlightedIndex s) < length (results s) \<longrightarrow>
        step minQ s (KeyDown Enter) =
          Inr (select minQ (results s ! nat (highlightedIndex s)) s))"
proof -
  let ?s1 = "s\<lparr>query := v, isOpen := False, highlightedIndex := - 1\<rparr>"
  obtain s2 r where a: "abort ?s1 = (s2, r)" by (cases "abort ?s1")
  have k: "issued s2 = issued s" "selected s2 = selected s" "debounceRef s2 = debounceRef s"
    "query s2 = v"
    using abort_keeps [of ?s1] abort_view [of ?s1] a by simp_all
  define w where "w = (if v = query s then s2\<lparr>selected := selected s2 @ [v]\<rparr>
                      else queryEffect minQ (s2\<lparr>selected := selected s2 @ [v]\<rparr>))"
  have sel: "select minQ v s = aborted_continuation r w"
    using a by (simp add: select_def Let_def w_def)
  have t1: "issued w = issued s" and t2: "selected w = selected s @ [v]"
    and t3: "debounceRef w =
       (if v = query s then debounceRef s
        else if int (length (trim v)) < minQ then None else Some (trim v))"
    and t4: "loading w = (if v = query s then loading s2 else minQ \<le> int (length (trim v)))"
    using k by (auto simp: w_def queryEffect_def Let_def)
  have n: "r = None \<and> loading s2 = loading s" if "controllerRef s = None"
    using a that by (auto simp: abort_def)
  have l: "loading (select minQ v s) =
             (if v = query s then loading s else minQ \<le> int (length (trim v)))"
    if "controllerRef s = None"
    using n [OF that] t4 by (simp add: sel aborted_continuation_def)
  have c1: "issued (select minQ v s) = issued s"
    using t1 by (simp add: sel continuation_keeps)
  have c2: "selected (select minQ v s) = selected s @ [v]"
    using t2 by (simp add: sel continuation_keeps)
  have c3: "cacheRef (select minQ v s) = cacheRef s"
    by (rule select_cache)
  have c4: "debounceRef (select minQ v s) =
       (if v = query s then debounceRef s
        else if int (length (trim v)) < minQ then None else Some (trim v))"
    using t3 by (simp add: sel continuation_keeps)
  have c6: "map_sum id issued (step minQ (select minQ v s) DebounceTimeout) =
          Inr (if cacheRef s (trim v) = None
               then issued s @ [(length (issued s), trim v)] else issued s)"
    if h: "v \<noteq> query s" "minQ \<le> int (length (trim v))"
  proof (cases "cacheRef s (trim v)")
    case None
    have "debounceRef (select minQ v s) = Some (trim v)" using c4 h by simp
    moreover have "cacheRef (select minQ v s) (trim v) = None" using c3 None by simp
    ultimately have "map_sum id (\<lambda>t'. (issued t', inflight t'))
          (step minQ (select minQ v s) DebounceTimeout) =
        Inr (issued (select minQ v s) @ [(length (issued (select minQ v s)), trim v)],
             inflight (fst (abort (select minQ v s)))
               @ [(length (issued (select minQ v s)), trim v)])"
      by (rule fire_uncached)
    then show ?thesis
      using None c1 by (cases "step minQ (select minQ v s) DebounceTimeout") auto
  next
    case (Some hit)
    have "debounceRef (select minQ v s) = Some (trim v)" using c4 h by simp
    moreover have "cacheRef (select minQ v s) (trim v) = Some hit" using c3 Some by simp
    ultimately show ?thesis
      using Some c1 fire_cached [of "select minQ v s" "trim v" hit minQ] by simp
  qed
  have c7: "map_sum id (\<lambda>t'. (issued t', inflight t')) (step minQ t DebounceTimeout) =
          Inr (issued t @ [(length (issued t), q)],
               inflight (fst (abort t)) @ [(length (issued t), q)])"
    if "debounceRef t = Some q" "cacheRef t q = None"
    using that by (rule fire_uncached)
  have c8: "step minQ s (ItemMouseDown i) = Inr (select minQ (results s ! i) s)"
    if "item_rendered s i"
    using that by (simp add: step_def)
  have c9: "step minQ s (KeyDown Enter) =
          Inr (select minQ (results s ! nat (highlightedIndex s)) s)"
    if "isOpen s" "0 \<le> highlightedIndex s" "nat (highlightedIndex s) < length (results s)"
    using that by (simp add: step_def onKeyDown_def)
  show ?thesis
    using c1 c2 c3 c4 l c6 c7 c8 c9 by blast
qed

text \<open>
  Witness for C5: committing \<open>Boston\<close>, by \<open>Enter\<close> or by a pointer press, while \<open>b\<close>
  is the text shown, the first city is highlighted and no request is live; the timer
  that the commit started then fires and the request for \<open>Boston\<close> is issued.
\<close>

theorem select_resubmits_witness:
  "controllerRef (loaded_b\<lparr>highlightedIndex := 0\<rparr>) = None
   \<and> ''Boston'' \<noteq> query (loaded_b\<lparr>highlightedIndex := 0\<rparr>)
   \<and> (1 :: int) \<le> int (length (trim ''Boston''))
   \<and> item_rendered (loaded_b\<lparr>highlightedIndex := 0\<rparr>) 0
   \<and> isOpen (loaded_b\<lparr>highlightedIndex := 0\<rparr>)
   \<and> step 1 (loaded_b\<lparr>highlightedIndex := 0\<rparr>) (KeyDown Enter) =
        Inr (select 1 ''Boston'' (loaded_b\<lparr>highlightedIndex := 0\<rparr>))
   \<and> step 1 (loaded_b\<lparr>highlightedIndex := 0\<rparr>) (ItemMouseDown 0) =
        Inr (select 1 ''Boston'' (loaded_b\<lparr>highlightedIndex := 0\<rparr>))
   \<and> debounceRef (select 1 ''Boston'' (loaded_b\<lparr>highlightedIndex := 0\<rparr>)) = Some ''Boston''
   \<and> loading (select 1 ''Boston'' (loaded_b\<lparr>highlightedIndex := 0\<rparr>))
   \<and> cacheRef (select 1 ''Boston'' (loaded_b\<lparr>highlightedIndex := 0\<rparr>)) ''Boston'' = None
   \<and> map_sum id issued
        (step 1 (select 1 ''Boston'' (loaded_b\<lparr>highlightedIndex := 0\<rparr>)) DebounceTimeout) =
        Inr [(0, ''b''), (1, ''Boston'')]"
proof -
  let ?s = "loaded_b\<lparr>highlightedIndex := 0\<rparr>"
  let ?t = "select 1 ''Boston'' ?s"
  note T = select_resubmits_changed_text [of 1 "''Boston''" ?s ?t "''Boston''" 0]
  have h: "controllerRef ?s = None" "''Boston'' \<noteq> query ?s"
    "(1 :: int) \<le> int (length (trim ''Boston''))" "item_rendered ?s 0" "isOpen ?s"
    "0 \<le> highlightedIndex ?s" "nat (highlightedIndex ?s) < length (results ?s)"
    "results ?s ! 0 = ''Boston''" "results ?s ! nat (highlightedIndex ?s) = ''Boston''"
    "cacheRef ?s ''Boston'' = None" "issued ?s = [(0, ''b'')]"
    by (simp_all add: loaded_b_def data_def item_rendered_def)
  have r1: "step 1 ?s (KeyDown Enter) = Inr ?t"
    using T h by (metis (no_types, lifting))
  have r2: "step 1 ?s (ItemMouseDown 0) = Inr ?t"
    using T h by (metis (no_types, lifting))
  have r3: "debounceRef ?t = Some ''Boston''"
    using T h by simp
  have r4: "loading ?t"
    using T h by simp
  have r5: "cacheRef ?t ''Boston'' = None"
    using T h by simp
  have r6: "map_sum id issued (step 1 ?t DebounceTimeout) = Inr [(0, ''b''), (1, ''Boston'')]"
    using T h by simp
  show ?thesis
    using h r1 r2 r3 r4 r5 r6 by (intro conjI)
qed

text \<open>
  C5 as stated fails: it says that committing never starts a new query. With the eight
  cities for \<open>b\<close> shown, \<open>ArrowDown\<close> and \<open>Enter\<close> commit \<open>Boston\<close>: a debounce timer
  for \<open>Boston\<close> is pending and \<open>loading\<close> is true, and when the timer fires a second
  request, for \<open>Boston\<close>, is issued.
\<close>

theorem select_counterexample:
  "map_sum id (\<lambda>s. (selected s, debounceRef s, loading s))
     (run 1 (mount 1) [Change ''b'', DebounceTimeout, FetchResolved 0, KeyDown ArrowDown,
        KeyDown Enter])
   = Inr ([''Boston''], Some ''Boston'', True)
   \<and> map_sum id issued
     (run 1 (mount 1) [Change ''b'', DebounceTimeout, FetchResolved 0, KeyDown ArrowDown,
        KeyDown Enter, DebounceTimeout])
   = Inr [(0, ''b''), (1, ''Boston'')]"
  by (simp add: mount_1 handler_defs searchCities_b data_def)

section \<open>Arrow keys\<close>

lemma arrow_down_step:
  assumes "results s \<noteq> []" and "- 1 \<le> highlightedIndex s"
    and "highlightedIndex s < int (length (results s))"
  shows "onKeyDown minQ ArrowDown s =
           Inr (s\<lparr>isOpen := True,
                  highlightedIndex := (highlightedIndex s + 1) mod int (length (results s))\<rparr>)"
proof (cases "highlightedIndex s < int (length (results s)) - 1")
  case True
  then have "(highlightedIndex s + 1) mod int (length (results s)) = highlightedIndex s + 1"
    using assms by simp
  then show ?thesis using True assms by (simp add: onKeyDown_def Let_def)
next
  case False
  then have "highlightedIndex s + 1 = int (length (results s))"
    using assms by simp
  then have "(highlightedIndex s + 1) mod int (length (results s)) = 0"
    by simp
  then show ?thesis using False assms by (simp add: onKeyDown_def Let_def)
qed

lemma arrow_down_presses:
  assumes "results s \<noteq> []" and "- 1 \<le> highlightedIndex s"
    and "highlightedIndex s < int (length (results s))"
  shows "run minQ s (replicate n (KeyDown ArrowDown)) =
           Inr (if n = 0 then s
                else s\<lparr>isOpen := True,
                       highlightedIndex :=
                         (highlightedIndex s + int n) mod int (length (results s))\<rparr>)"
  using assms
proof (induction n arbitrary: s)
  case 0
  then show ?case by simp
next
  case (Suc n)
  let ?N = "int (length (results s))"
  let ?s1 = "s\<lparr>isOpen := True, highlightedIndex := (highlightedIndex s + 1) mod ?N\<rparr>"
  have pos: "0 < ?N" using Suc.prems by simp
  have st: "step minQ s (KeyDown ArrowDown) = Inr ?s1"
    using arrow_down_step [OF Suc.prems] by (simp add: step_def)
  have r1: "results ?s1 \<noteq> []" using Suc.prems by simp
  have "0 \<le> (highlightedIndex s + 1) mod ?N"
    using pos by simp
  then have r2: "- 1 \<le> highlightedIndex ?s1"
    by simp
  have r3: "highlightedIndex ?s1 < int (length (results ?s1))"
    using pos by simp
  have "((highlightedIndex s + 1) mod ?N + int n) mod ?N = (highlightedIndex s + 1 + int n) mod ?N"
    by (rule mod_add_left_eq)
  then have "((highlightedIndex s + 1) mod ?N + int n) mod ?N = (highlightedIndex s + int (Suc n)) mod ?N"
    by (simp add: add.assoc)
  then show ?case
    using Suc.IH [OF r1 r2 r3] st by simp
qed

text \<open>
  C6, as the code has it. In every reachable state, \<open>ArrowDown\<close> leaves the panel
  open; with a nonempty result set of size \<open>N\<close> the highlight becomes
  \<open>(highlight + 1) mod N\<close>, whether the panel was open or closed, and with an empty one
  the highlight stays. While the panel is closed the highlight is \<open>-1\<close>, so the press
  that opens it moves the highlight to the first item. Pressed \<open>n + 1\<close> times from the
  highlight \<open>-1\<close>, the key leaves the highlight at \<open>n mod N\<close>: the cycle
  \<open>0, 1, ..., N-1, 0, ...\<close>.
\<close>

theorem arrow_down_advances:
  assumes "reachable minQ s"
  shows "onKeyDown minQ ArrowDown s =
           Inr (if results s = [] then s\<lparr>isOpen := True\<rparr>
                else s\<lparr>isOpen := True,
                       highlightedIndex :=
                         (highlightedIndex s + 1) mod int (length (results s))\<rparr>)
       \<and> (isOpen s \<or> highlightedIndex s = - 1)
       \<and> (results s \<noteq> [] \<and> highlightedIndex s = - 1 \<longrightarrow>
            map_sum id highlightedIndex (run minQ s (replicate (Suc n) (KeyDown ArrowDown))) =
              Inr (int (n mod length (results s))))"
proof -
  have inv: "hl_inv s" using assms by (rule reachable_hl_inv)
  have a: "onKeyDown minQ ArrowDown s = Inr (s\<lparr>isOpen := True\<rparr>)" if "results s = []"
    using that by (simp add: onKeyDown_def)
  have b: "onKeyDown minQ ArrowDown s =
           Inr (s\<lparr>isOpen := True,
                  highlightedIndex := (highlightedIndex s + 1) mod int (length (results s))\<rparr>)"
    if "results s \<noteq> []"
    using that inv arrow_down_step [of s minQ] by (simp add: hl_inv_def)
  have c: "isOpen s \<or> highlightedIndex s = - 1"
    using inv by (simp add: hl_inv_def)
  have d: "map_sum id highlightedIndex (run minQ s (replicate (Suc n) (KeyDown ArrowDown))) =
              Inr (int (n mod length (results s)))"
    if "results s \<noteq> []" and "highlightedIndex s = - 1"
    using that arrow_down_presses [of s minQ "Suc n"] by (simp add: zmod_int)
  show ?thesis
    using a b c d by (cases "results s = []") simp_all
qed

text \<open>
  Witness for C6: with the eight cities shown and nothing highlighted, one press
  highlights the first city, and nine presses lead back to it.
\<close>

theorem arrow_down_witness:
  "reachable 1 loaded_b
   \<and> onKeyDown 1 ArrowDown loaded_b = Inr (loaded_b\<lparr>highlightedIndex := 0\<rparr>)
   \<and> map_sum id highlightedIndex (run 1 loaded_b (replicate 9 (KeyDown ArrowDown))) = Inr 0"
proof -
  have "replicate 9 (KeyDown ArrowDown) = replicate (Suc 8) (KeyDown ArrowDown)"
    by (simp add: numeral_eq_Suc)
  then show ?thesis
    using reachable_loaded_b arrow_down_advances [OF reachable_loaded_b, of 8]
    by (simp add: loaded_b_def data_def)
qed

text \<open>
  C6 as stated fails in its last part: it says that \<open>ArrowDown\<close> while the panel is
  closed opens it without moving the highlight. With the eight cities for \<open>b\<close> loaded
  and the panel closed by \<open>Escape\<close> (highlight \<open>-1\<close>), \<open>ArrowDown\<close> opens the panel
  and moves the highlight to 0.
\<close>

theorem arrow_down_closed_counterexample:
  "map_sum id (\<lambda>s. (isOpen s, highlightedIndex s))
     (run 1 (mount 1) [Change ''b'', DebounceTimeout, FetchResolved 0, KeyDown Escape])
   = Inr (False, - 1)
   \<and> map_sum id (\<lambda>s. (isOpen s, highlightedIndex s))
     (run 1 (mount 1) [Change ''b'', DebounceTimeout, FetchResolved 0, KeyDown Escape,
        KeyDown ArrowDown])
   = Inr (True, 0)"
  by (simp add: mount_1 handler_defs searchCities_b data_def)

text \<open>
  C7, as the code has it. In every reachable state with a nonempty result set of size
  \<open>N\<close>, \<open>ArrowUp\<close> leaves the panel open and moves the highlight to
  \<open>(highlight - 1) mod N\<close> when an item is highlighted, wrapping from the first item
  to the last, and to the last item \<open>N - 1\<close> from the highlight \<open>-1\<close>.
\<close>

theorem arrow_up_retreats:
  assumes "reachable minQ s" and "results s \<noteq> []"
  shows "onKeyDown minQ ArrowUp s =
           Inr (s\<lparr>isOpen := True,
                  highlightedIndex :=
                    (if highlightedIndex s = - 1 then int (length (results s)) - 1
                     else (highlightedIndex s - 1) mod int (length (results s)))\<rparr>)"
proof -
  let ?N = "int (length (results s))"
  have inv: "- 1 \<le> highlightedIndex s" "highlightedIndex s < ?N"
    using reachable_hl_inv [OF assms(1)] assms(2) by (simp_all add: hl_inv_def)
  consider "highlightedIndex s = - 1" | "highlightedIndex s = 0" | "0 < highlightedIndex s"
    using inv by linarith
  then show ?thesis
  proof cases
    case 1
    then show ?thesis using assms(2) by (simp add: onKeyDown_def Let_def)
  next
    case 2
    have "(- 1) mod ?N = ?N - 1"
      using inv 2 by (simp add: zmod_minus1)
    then show ?thesis using 2 assms(2) by (simp add: onKeyDown_def Let_def)
  next
    case 3
    then have "(highlightedIndex s - 1) mod ?N = highlightedIndex s - 1"
      using inv by simp
    then show ?thesis using 3 assms(2) by (simp add: onKeyDown_def Let_def)
  qed
qed

text \<open>
  Witness for C7: with the eight cities shown and nothing highlighted, \<open>ArrowUp\<close>
  highlights the last city.
\<close>

theorem arrow_up_witness:
  "reachable 1 loaded_b \<and> results loaded_b \<noteq> []
   \<and> onKeyDown 1 ArrowUp loaded_b = Inr (loaded_b\<lparr>highlightedIndex := 7\<rparr>)"
proof -
  have a: "results loaded_b \<noteq> []" by (simp add: loaded_b_def data_def)
  show ?thesis
    using reachable_loaded_b a arrow_up_retreats [OF reachable_loaded_b a]
    by (simp add: loaded_b_def data_def)
qed

text \<open>
  C7 as stated fails at the highlight \<open>-1\<close>: it gives \<open>(highlight - 1) mod N\<close> for
  every press. With the eight cities loaded and nothing highlighted, \<open>ArrowUp\<close> moves
  the highlight to 7, and \<open>(-1 - 1) mod 8\<close> is 6.
\<close>

theorem arrow_up_counterexample:
  "map_sum id (\<lambda>s. (isOpen s, length (results s), highlightedIndex s))
     (run 1 (mount 1) [Change ''b'', DebounceTimeout, FetchResolved 0])
   = Inr (True, 8, - 1)
   \<and> map_sum id highlightedIndex
     (run 1 (mount 1) [Change ''b'', DebounceTimeout, FetchResolved 0, KeyDown ArrowUp])
   = Inr 7
   \<and> (- 1 - 1) mod (8 :: int) = 6"
  by (simp add: mount_1 handler_defs searchCities_b data_def)

section \<open>Failed requests\<close>

text \<open>
  C8. When the awaited request fails with the cancellation error (a \<open>DOMException\<close>
  named \<open>AbortError\<close>), the rest of the callback only runs the \<open>finally\<close> block:
  nothing reaches \<open>console.error\<close> or \<open>onSelect\<close>, and the results and the cache are
  as before. The same holds of the continuation that an \<open>abort()\<close> of the component
  itself has queued.
\<close>

theorem abort_failure_suppressed:
  assumes "is_abort err"
  shows "settled q (Inl err) s = s\<lparr>loading := False, controllerRef := None, highlightedIndex := - 1\<rparr>
       \<and> console (settled q (Inl err) s) = console s
       \<and> selected (settled q (Inl err) s) = selected s
       \<and> results (settled q (Inl err) s) = results s
       \<and> cacheRef (settled q (Inl err) s) = cacheRef s
       \<and> console (aborted_continuation rejected s) = console s
       \<and> selected (aborted_continuation rejected s) = selected s
       \<and> results (aborted_continuation rejected s) = results s
       \<and> cacheRef (aborted_continuation rejected s) = cacheRef s"
  using assms
  by (simp add: aborted_continuation_def settled_def finally_block_def is_abort_def
      split: option.splits)

text \<open>
  Witness for C8: the error that \<open>searchCities\<close> rejects with on abort, with the eight
  cities shown.
\<close>

theorem abort_failure_suppressed_witness:
  "is_abort (DOMException ''Aborted'' ''AbortError'')
   \<and> console (settled ''b'' (Inl (DOMException ''Aborted'' ''AbortError'')) loaded_b) = []
   \<and> results (settled ''b'' (Inl (DOMException ''Aborted'' ''AbortError'')) loaded_b) = data"
proof -
  have a: "is_abort (DOMException ''Aborted'' ''AbortError'')"
    by (simp add: is_abort_def)
  show ?thesis
    using a abort_failure_suppressed [OF a, of "''b''" loaded_b] by (simp add: loaded_b_def)
qed

text \<open>
  C9. When a request in flight fails with any other error, the error is handed to
  \<open>console.error\<close>, loading is cleared, the ref is emptied and the highlight reset;
  the results and the cache are as before, so the query is not cached.
\<close>

theorem fetch_failure_reported:
  assumes "\<not> is_abort err" and "map_of (inflight s) c = Some q"
  shows "step minQ s (FetchRejected c err) =
           Inr (s\<lparr>inflight := filter (\<lambda>r. fst r \<noteq> c) (inflight s),
                  console := console s @ [err],
                  loading := False, controllerRef := None, highlightedIndex := - 1\<rparr>)"
  using assms by (simp add: step_def settled_def finally_block_def)

text \<open>
  Witness for C9: the request for \<open>b\<close> fails with an error of the network.
\<close>

theorem fetch_failure_reported_witness:
  "\<not> is_abort (Error ''offline'') \<and> map_of (inflight fetching_b) 0 = Some ''b''
   \<and> step 1 fetching_b (FetchRejected 0 (Error ''offline'')) =
        Inr (fetching_b\<lparr>inflight := [], console := [Error ''offline''],
                        loading := False, controllerRef := None\<rparr>)"
proof -
  have a: "\<not> is_abort (Error ''offline'')" by (simp add: is_abort_def)
  have b: "map_of (inflight fetching_b) 0 = Some ''b''" by (simp add: fetching_b_def)
  show ?thesis
    using a b fetch_failure_reported [OF a b, of 1] by (simp add: fetching_b_def)
qed

end
